theory Spec2Isabelle
  imports Main "HOL-Library.Char_ord" "HOL-Library.List_Lexorder" "HOL-Library.Sublist"
begin

section \<open>Strings and paths (Go standard library, Unix)\<close>

text \<open>
  Go strings are byte sequences; they are modelled as \<^typ>\<open>string\<close> (a list of 8-bit
  characters). The comparison \<open><\<close> on Go strings is byte-wise lexicographic, which is the
  order of \<^theory_text>\<open>List_Lexorder\<close> over \<^theory_text>\<open>Char_ord\<close>.

  The servers call \<open>strings.HasPrefix\<close>, \<open>strings.HasSuffix\<close>, \<open>filepath.Clean\<close>,
  \<open>filepath.Join\<close>, \<open>filepath.Rel\<close>, \<open>filepath.Dir\<close>, \<open>filepath.Ext\<close> and
  \<open>filepath.Abs\<close>. They belong to the Go standard library, not to the repository; the
  definitions below follow the library's documented behaviour on Unix (separator \<open>/\<close>, no
  volume names), element by element.
\<close>

definition Separator :: char where
  "Separator = CHR ''/''"

definition HasPrefix :: "string \<Rightarrow> string \<Rightarrow> bool" where
  "HasPrefix s pre = (take (length pre) s = pre)"

definition HasSuffix :: "string \<Rightarrow> string \<Rightarrow> bool" where
  "HasSuffix s suf = (length suf \<le> length s \<and> drop (length s - length suf) s = suf)"

text \<open>\<open>strings.Split(s, "/")\<close>: the elements between separators; never the empty list.\<close>

fun split_path :: "string \<Rightarrow> string list" where
  "split_path [] = [[]]"
| "split_path (c # cs) =
     (if c = CHR ''/'' then [] # split_path cs
      else (c # hd (split_path cs)) # tl (split_path cs))"

text \<open>\<open>strings.Join(elems, "/")\<close>.\<close>

fun join_path :: "string list \<Rightarrow> string" where
  "join_path [] = []"
| "join_path [e] = e"
| "join_path (e # f # es) = e @ CHR ''/'' # join_path (f # es)"

text \<open>
  The loop of \<open>filepath.Clean\<close>, on the elements of the path. \<open>out\<close> holds the elements
  written so far. An empty element and \<open>.\<close> are dropped. At \<open>..\<close> the loop backtracks over
  the last element written when there is one that is not itself a leading \<open>..\<close>
  (\<open>out.w > dotdot\<close>); otherwise a path that is not rooted keeps the \<open>..\<close>, and a rooted
  path drops it.
\<close>

fun clean_elems :: "bool \<Rightarrow> string list \<Rightarrow> string list \<Rightarrow> string list" where
  "clean_elems rooted out [] = out"
| "clean_elems rooted out (e # es) =
     (if e = [] \<or> e = ''.'' then clean_elems rooted out es
      else if e = ''..'' then
        (if out \<noteq> [] \<and> last out \<noteq> ''..'' then clean_elems rooted (butlast out) es
         else if \<not> rooted then clean_elems rooted (out @ [''..'']) es
         else clean_elems rooted out es)
      else clean_elems rooted (out @ [e]) es)"

definition Clean :: "string \<Rightarrow> string" where
  "Clean path =
     (if path = [] then ''.''
      else
        let rooted = (hd path = CHR ''/'');
            out = clean_elems rooted [] (split_path path)
        in if rooted then CHR ''/'' # join_path out
           else if out = [] then ''.''
           else join_path out)"

text \<open>
  \<open>filepath.Join(a, b)\<close>: empty elements are ignored, the rest is joined with the
  separator and cleaned; the result is empty when both are empty.
\<close>

definition Join :: "string \<Rightarrow> string \<Rightarrow> string" where
  "Join a b =
     (if a \<noteq> [] then Clean (a @ CHR ''/'' # b)
      else if b \<noteq> [] then Clean b
      else [])"

text \<open>\<open>filepath.IsAbs\<close> and \<open>filepath.Abs\<close>; \<open>wd\<close> is what \<open>os.Getwd\<close> returns.\<close>

definition IsAbs :: "string \<Rightarrow> bool" where
  "IsAbs path = HasPrefix path ''/''"

definition Abs :: "string \<Rightarrow> string \<Rightarrow> string" where
  "Abs wd path = (if IsAbs path then Clean path else Join wd path)"

text \<open>
  \<open>filepath.Dir\<close>: everything up to and including the last separator, cleaned.
\<close>

fun upto_last_sep :: "string \<Rightarrow> string" where
  "upto_last_sep [] = []"
| "upto_last_sep (c # cs) =
     (if CHR ''/'' \<in> set cs then c # upto_last_sep cs
      else if c = CHR ''/'' then [c]
      else [])"

definition Dir :: "string \<Rightarrow> string" where
  "Dir path = Clean (upto_last_sep path)"

text \<open>
  \<open>filepath.Ext\<close>: the suffix beginning at the last dot of the last element, empty when
  that element has no dot. The loop runs from the end of the path, here over the reversed
  string with the characters passed so far.
\<close>

fun ext_loop :: "string \<Rightarrow> string \<Rightarrow> string" where
  "ext_loop [] acc = []"
| "ext_loop (c # cs) acc =
     (if c = CHR ''/'' then []
      else if c = CHR ''.'' then c # acc
      else ext_loop cs (c # acc))"

definition Ext :: "string \<Rightarrow> string" where
  "Ext path = ext_loop (rev path) []"

text \<open>
  \<open>filepath.Rel(basepath, targpath)\<close>. Both paths are cleaned; equal paths give \<open>.\<close>; a
  base of \<open>.\<close> counts as empty; a rooted and an unrooted path cannot be related. Then
  the loop skips the leading elements the two paths share. If it stopped at a base element
  \<open>..\<close> the call fails; if base elements are left, the result climbs one \<open>..\<close> for each and
  descends into what is left of the target; otherwise it is what is left of the target.
\<close>

datatype rel_error = CannotMakeRelative

definition path_elems :: "string \<Rightarrow> string list" where
  "path_elems p = (if p = [] then [] else if p = ''/'' then [[]] else split_path p)"

fun skip_common :: "string list \<Rightarrow> string list \<Rightarrow> string list \<times> string list" where
  "skip_common (b # bs) (t # ts) = (if t = b then skip_common bs ts else (b # bs, t # ts))"
| "skip_common bs ts = (bs, ts)"

definition Rel :: "string \<Rightarrow> string \<Rightarrow> rel_error + string" where
  "Rel basepath targpath =
     (let base = Clean basepath; targ = Clean targpath in
      if targ = base then Inr ''.''
      else
        let base = (if base = ''.'' then [] else base);
            baseSlashed = (base \<noteq> [] \<and> hd base = CHR ''/'');
            targSlashed = (targ \<noteq> [] \<and> hd targ = CHR ''/'')
        in if baseSlashed \<noteq> targSlashed then Inl CannotMakeRelative
           else
             (case skip_common (path_elems base) (path_elems targ) of
                (bs, ts) \<Rightarrow>
                  if bs \<noteq> [] \<and> ts \<noteq> [] \<and> hd bs = ''..'' then Inl CannotMakeRelative
                  else if bs \<noteq> [] then Inr (join_path (map (\<lambda>_. ''..'') bs @ ts))
                  else Inr (join_path ts)))"


section \<open>Formatting and HTML escaping (Go standard library)\<close>

text \<open>The verb \<open>%d\<close> of \<open>fmt\<close>: the decimal digits of an integer, with a sign.\<close>

fun digits :: "nat \<Rightarrow> string" where
  "digits n = (if n < 10 then [char_of (48 + n)] else digits (n div 10) @ [char_of (48 + n mod 10)])"

definition Itoa :: "int \<Rightarrow> string" where
  "Itoa i = (if i < 0 then CHR ''-'' # digits (nat (- i)) else digits (nat i))"

text \<open>
  \<open>html.EscapeString\<close> replaces the five characters \<open>& ' < > "\<close>;
  \<open>template.HTMLEscapeString\<close> replaces the same five and the NUL byte (by U+FFFD, three
  bytes in UTF-8).
\<close>

definition escape_byte :: "char \<Rightarrow> string" where
  \<open>escape_byte c =
     (if c = CHR ''&'' then ''&amp;''
      else if c = CHR 0x27 then ''&#39;''
      else if c = CHR ''<'' then ''&lt;''
      else if c = CHR ''>'' then ''&gt;''
      else if c = CHR 0x22 then ''&#34;''
      else [c])\<close>

fun EscapeString :: "string \<Rightarrow> string" where
  "EscapeString [] = []"
| "EscapeString (c # cs) = escape_byte c @ EscapeString cs"

definition template_escape_byte :: "char \<Rightarrow> string" where
  \<open>template_escape_byte c =
     (if c = CHR 0x00 then [CHR 0xEF, CHR 0xBF, CHR 0xBD]
      else if c = CHR 0x22 then ''&#34;''
      else if c = CHR 0x27 then ''&#39;''
      else if c = CHR ''&'' then ''&amp;''
      else if c = CHR ''<'' then ''&lt;''
      else if c = CHR ''>'' then ''&gt;''
      else [c])\<close>

fun HTMLEscapeString :: "string \<Rightarrow> string" where
  "HTMLEscapeString [] = []"
| "HTMLEscapeString (c # cs) = template_escape_byte c @ HTMLEscapeString cs"

section \<open>The operating system and the HTTP layer\<close>

text \<open>
  Instants (\<open>time.Time\<close>) and durations are integers, in nanoseconds; \<open>time.Since t\<close> at the
  instant \<open>now\<close> is \<open>now - t\<close>. One request is handled at one instant.

  \<open>os.FileInfo\<close> is a record of what its methods return, \<open>os.DirEntry\<close> likewise, with
  \<open>Info\<close> failing (\<open>None\<close>) when the file has gone since the directory was read. The
  environment \<open>env\<close> holds what the handlers obtain from outside: the results of \<open>os.Stat\<close>
  and \<open>os.ReadDir\<close> (\<open>None\<close>: an error), the table behind \<open>mime.TypeByExtension\<close>, and
  \<open>time.Time.Format\<close> (layout, then instant). The file system does not change while one
  request is handled: two calls of \<open>os.Stat\<close> in one handler see the same file.
\<close>

record FileInfo =
  Size :: int
  ModTime :: int
  IsDir :: bool

record DirEntry =
  Name :: string
  EntryIsDir :: bool
  Info :: "FileInfo option"

record env =
  Stat :: "string \<Rightarrow> FileInfo option"
  ReadDir :: "string \<Rightarrow> DirEntry list option"
  TypeByExtension :: "string \<Rightarrow> string"
  Format :: "string \<Rightarrow> int \<Rightarrow> string"

text \<open>
  What a handler does to the file system, in order, and what it answers: \<open>http.Error\<close>
  with a status code and a message, \<open>http.ServeFile\<close> of a path under the headers set
  before, a page written with \<open>fmt.Fprintf\<close> (status 200) under its headers, a JSON
  document written by \<open>json.Encoder\<close> (status 200), or a panic (a nil \<open>FileInfo\<close> is
  dereferenced). Log lines are left out.
\<close>

datatype fsop = OpStat string | OpReadDir string | OpServeFile string

datatype json =
    JNull
  | JBool bool
  | JNumber string
  | JString string
  | JArray "json list"
  | JObject "(string \<times> json) list"

datatype response =
    Error nat string
  | ServeFile "(string \<times> string) list" string
  | Page "(string \<times> string) list" string
  | WriteJSON "(string \<times> string) list" json
  | Panic

definition StatusNotFound :: nat where "StatusNotFound = 404"
definition StatusForbidden :: nat where "StatusForbidden = 403"
definition StatusBadRequest :: nat where "StatusBadRequest = 400"
definition StatusInternalServerError :: nat where "StatusInternalServerError = 500"

text \<open>The status code of a response.\<close>

fun status :: "response \<Rightarrow> nat option" where
  "status (Error code msg) = Some code"
| "status (ServeFile hs p) = Some 200"
| "status (Page hs body) = Some 200"
| "status (WriteJSON hs v) = Some 200"
| "status Panic = None"

text \<open>
  \<open>sort.Slice(files, less)\<close>. The library's algorithm is not stable and not part of the
  repository; it is modelled by insertion sort. Two sorting algorithms agree on a list
  whenever \<open>less\<close> is a strict total order on its elements.
\<close>

fun insert_less :: "('a \<Rightarrow> 'a \<Rightarrow> bool) \<Rightarrow> 'a \<Rightarrow> 'a list \<Rightarrow> 'a list" where
  "insert_less lt x [] = [x]"
| "insert_less lt x (y # ys) = (if lt x y then x # y # ys else y # insert_less lt x ys)"

definition sort_Slice :: "('a \<Rightarrow> 'a \<Rightarrow> bool) \<Rightarrow> 'a list \<Rightarrow> 'a list" where
  "sort_Slice lt xs = foldr (insert_less lt) xs []"

section \<open>server3\<close>

text \<open>The file \<^verbatim>\<open>src/server3/go-server3.go\<close>.\<close>

subsection \<open>The metadata cache and its sweep\<close>

text \<open>
  Lines 22 to 63. \<open>cacheTTL = 5 * time.Minute\<close>, in nanoseconds; the map \<open>fileCache\<close>
  is a partial function from paths to entries, and the mutex is not modelled: a handler
  or a sweep is one step.
\<close>

definition cacheTTL :: int where
  "cacheTTL = 5 * (60 * 1000000000)"

record cacheEntry =
  entry_ModTime :: int
  entry_IsDir :: bool
  entry_LastAccess :: int

type_synonym fileCache = "string \<rightharpoonup> cacheEntry"

text \<open>
  \<open>cleanCache\<close> at the instant \<open>now\<close>: every path whose entry has
  \<open>time.Since(entry.LastAccess) > cacheTTL\<close> is deleted. The timer loop of \<open>main\<close> calls it
  once per tick.
\<close>

definition cleanCache :: "int \<Rightarrow> fileCache \<Rightarrow> fileCache" where
  "cleanCache now fileCache =
     (\<lambda>path. case fileCache path of
        None \<Rightarrow> None
      | Some entry \<Rightarrow> if now - entry_LastAccess entry > cacheTTL then None else Some entry)"

subsection \<open>Serving a file\<close>

text \<open>Lines 185 to 198: the headers \<open>serveFile\<close> sets before it calls \<open>http.ServeFile\<close>.\<close>

definition security_headers :: "(string \<times> string) list" where
  "security_headers =
     [(''Cache-Control'', ''no-cache, no-store, must-revalidate''),
      (''X-Content-Type-Options'', ''nosniff''),
      (''X-Frame-Options'', ''DENY''),
      (''Content-Security-Policy'', ''default-src '' @ [CHR 0x27] @ ''self'' @ [CHR 0x27])]"

definition serveFile :: "env \<Rightarrow> string \<Rightarrow> FileInfo \<Rightarrow> response" where
  "serveFile e fsPath fi =
     (let mimeType = TypeByExtension e (Ext fsPath);
          mimeType = (if mimeType = [] then ''application/octet-stream'' else mimeType)
      in ServeFile
           ([(''Content-Type'', mimeType), (''Content-Length'', Itoa (Size fi))] @ security_headers)
           fsPath)"

subsection \<open>The directory listing\<close>

text \<open>
  Lines 129 to 179 of \<open>handleBrowse\<close>.
  The three \<open>fmt.Fprintf\<close> calls of the listing, as functions of their arguments: the
  head of the page (the format has the verb \<open>%s\<close> twice), the link to the parent and the
  line of an entry.
\<close>

definition tabs :: "nat \<Rightarrow> string" where
  "tabs n = replicate n (CHR 0x09)"

definition page_head :: "string \<Rightarrow> string \<Rightarrow> string" where
  \<open>page_head title heading =
     ''\<newline>'' @ tabs 3 @ ''<html>\<newline>''
     @ tabs 3 @ ''<head>\<newline>''
     @ tabs 4 @ ''<title>Index of '' @ title @ ''</title>\<newline>''
     @ tabs 4 @ ''<style>\<newline>''
     @ tabs 5 @ ''body { font-family: Arial, sans-serif; margin: 20px; }\<newline>''
     @ tabs 5 @ ''h2 { color: #333; }\<newline>''
     @ tabs 5 @ ''ul { list-style: none; padding: 0; }\<newline>''
     @ tabs 5 @ ''li { padding: 5px 0; }\<newline>''
     @ tabs 5 @ ''a { text-decoration: none; color: #0066cc; }\<newline>''
     @ tabs 5 @ ''a:hover { text-decoration: underline; }\<newline>''
     @ tabs 4 @ ''</style>\<newline>''
     @ tabs 3 @ ''</head>\<newline>''
     @ tabs 3 @ ''<body>\<newline>''
     @ tabs 4 @ ''<h2>Index of '' @ heading @ ''</h2>\<newline>''
     @ tabs 4 @ ''<ul>''\<close>

definition parent_html :: "string \<Rightarrow> string" where
  \<open>parent_html parent = ''<li><a href="'' @ parent @ ''">..</a></li>''\<close>

definition entry_html :: "string \<Rightarrow> string \<Rightarrow> int \<Rightarrow> string \<Rightarrow> string" where
  \<open>entry_html link name sz modTime =
     ''<li><a href="'' @ link @ ''">'' @ name @ ''</a> ('' @ Itoa sz @ '' bytes, '' @ modTime
     @ '')</li>''\<close>

definition parent_link :: "string \<Rightarrow> string" where
  "parent_link reqPath =
     (if reqPath \<noteq> ''/'' then
        let parent = Dir reqPath;
            parent = (if \<not> HasSuffix parent ''/'' then parent @ ''/'' else parent)
        in parent_html (EscapeString parent)
      else [])"

text \<open>
  The body of the loop over the sorted entries (\<open>for _, f := range files\<close>) for an entry
  that is not skipped, and the loop; \<open>None\<close> when \<open>f.Info()\<close> fails on an entry that is
  listed, where \<open>info.Size()\<close> panics.
\<close>

definition entry_line :: "env \<Rightarrow> string \<Rightarrow> DirEntry \<Rightarrow> string option" where
  "entry_line e reqPath f =
     (let name = Name f;
          link = Join reqPath name
      in case Info f of
           None \<Rightarrow> None
         | Some fi \<Rightarrow>
             let size = Size fi;
                 modTime = Format e ''2006-01-02 15:04:05'' (ModTime fi);
                 link = (if EntryIsDir f then link @ ''/'' else link);
                 name = (if EntryIsDir f then name @ ''/'' else name)
             in Some (entry_html (EscapeString link) (EscapeString name) size modTime))"

fun list_entries :: "env \<Rightarrow> string \<Rightarrow> DirEntry list \<Rightarrow> string option" where
  "list_entries e reqPath [] = Some []"
| "list_entries e reqPath (f # files) =
     (if HasPrefix (Name f) ''.'' then list_entries e reqPath files
      else
        (case entry_line e reqPath f of
           None \<Rightarrow> None
         | Some line \<Rightarrow>
             (case list_entries e reqPath files of
                None \<Rightarrow> None
              | Some rest \<Rightarrow> Some (line @ rest))))"

definition less_name :: "DirEntry \<Rightarrow> DirEntry \<Rightarrow> bool" where
  "less_name a b = (Name a < Name b)"

definition listing_headers :: "(string \<times> string) list" where
  "listing_headers = (''Content-Type'', ''text/html; charset=utf-8'') # security_headers"

definition render_listing :: "env \<Rightarrow> string \<Rightarrow> DirEntry list \<Rightarrow> response" where
  "render_listing e reqPath files =
     (let files = sort_Slice less_name files in
      case list_entries e reqPath files of
        None \<Rightarrow> Panic
      | Some items \<Rightarrow>
          Page listing_headers
            (page_head (EscapeString reqPath) (EscapeString reqPath) @ parent_link reqPath @ items
             @ ''</ul></body></html>''))"

subsection \<open>\<open>handleBrowse\<close>\<close>

text \<open>
  Lines 76 to 183.
  \<open>handleBrowse baseDirectory\<close> on a request with URL path \<open>urlPath\<close>, at the instant
  \<open>now\<close>, with the cache \<open>fileCache\<close>: the response, the cache afterwards, and the file
  system operations in the order they happen. \<open>browse_stat\<close> is the part of the handler
  from the second \<open>os.Stat\<close> on, which every path through the cache check that does not
  return reaches.
\<close>

definition new_entry :: "FileInfo \<Rightarrow> int \<Rightarrow> cacheEntry" where
  "new_entry fi now = \<lparr>entry_ModTime = ModTime fi, entry_IsDir = IsDir fi, entry_LastAccess = now\<rparr>"

definition browse_stat ::
  "env \<Rightarrow> int \<Rightarrow> string \<Rightarrow> string \<Rightarrow> fileCache \<Rightarrow> fsop list \<Rightarrow> response \<times> fileCache \<times> fsop list" where
  "browse_stat e now reqPath fsPath fileCache ops =
     (case Stat e fsPath of
        None \<Rightarrow> (Error StatusNotFound ''Not found'', fileCache, ops @ [OpStat fsPath])
      | Some fi \<Rightarrow>
          let fileCache = fileCache(fsPath \<mapsto> new_entry fi now) in
          if \<not> IsDir fi then
            (serveFile e fsPath fi, fileCache, ops @ [OpStat fsPath, OpServeFile fsPath])
          else
            (case ReadDir e fsPath of
               None \<Rightarrow>
                 (Error StatusInternalServerError ''Failed to read directory'', fileCache,
                  ops @ [OpStat fsPath, OpReadDir fsPath])
             | Some files \<Rightarrow>
                 (render_listing e reqPath files, fileCache,
                  ops @ [OpStat fsPath, OpReadDir fsPath])))"

definition handleBrowse ::
  "string \<Rightarrow> env \<Rightarrow> int \<Rightarrow> fileCache \<Rightarrow> string \<Rightarrow> response \<times> fileCache \<times> fsop list" where
  "handleBrowse baseDirectory e now fileCache urlPath =
     (let reqPath = Clean urlPath;
          fsPath = Join baseDirectory reqPath
      in if \<not> HasPrefix fsPath baseDirectory then
           (Error StatusNotFound ''Not found'', fileCache, [])
         else
           (case fileCache fsPath of
              None \<Rightarrow> browse_stat e now reqPath fsPath fileCache []
            | Some cachedInfo \<Rightarrow>
                (case Stat e fsPath of
                   None \<Rightarrow> browse_stat e now reqPath fsPath fileCache [OpStat fsPath]
                 | Some fi \<Rightarrow>
                     if ModTime fi = entry_ModTime cachedInfo then
                       let fileCache = fileCache(fsPath \<mapsto> new_entry fi now) in
                       if \<not> entry_IsDir cachedInfo then
                         (serveFile e fsPath fi, fileCache, [OpStat fsPath, OpServeFile fsPath])
                       else browse_stat e now reqPath fsPath fileCache [OpStat fsPath]
                     else browse_stat e now reqPath fsPath fileCache [OpStat fsPath])))"

text \<open>
  Line 233: \<open>main\<close> resolves the \<open>-dir\<close> flag to an absolute path, against the
  working directory \<open>wd\<close>.
\<close>

definition baseDirectory_of :: "string \<Rightarrow> string \<Rightarrow> string" where
  "baseDirectory_of wd baseDir = Abs wd baseDir"

subsection \<open>\<open>handlePost\<close>\<close>

text \<open>
  Lines 200 to 224.
  A request body is a stream of bytes read by \<open>json.Decoder\<close>, which consumes the first
  JSON value of the stream and looks no further. The body is modelled by what the decoder
  finds: \<open>Value\<close>, the first value (\<open>None\<close> when the bytes are not the beginning of a
  well-formed value), and \<open>Needed\<close>, the number of bytes the decoder has to read to reach
  the end of that value or the error. \<open>http.MaxBytesReader\<close> makes every read beyond its
  limit fail.
\<close>

record Body =
  Value :: "json option"
  Needed :: nat

record Request =
  Method :: string
  URLPath :: string
  ReqBody :: Body

datatype decode_error = TooLarge | SyntaxError | UnmarshalTypeError

definition read_value :: "nat \<Rightarrow> Body \<Rightarrow> decode_error + json" where
  "read_value limit b =
     (if limit < Needed b then Inl TooLarge
      else case Value b of None \<Rightarrow> Inl SyntaxError | Some v \<Rightarrow> Inr v)"

text \<open>
  Decoding into \<open>struct { Data string `json:"data"` }\<close>. An object key selects the field
  when it equals the tag, also up to the case of its letters. A string is stored, \<open>null\<close>
  leaves the field as it is, any other value is a type error, which the decoder remembers
  while it goes on; keys that select no field are skipped. At the top level \<open>null\<close> leaves
  the struct as it is and anything but an object is a type error.
\<close>

definition to_lower :: "char \<Rightarrow> char" where
  "to_lower c = (if CHR ''A'' \<le> c \<and> c \<le> CHR ''Z'' then char_of (of_char c + (32::nat)) else c)"

definition selects_data :: "string \<Rightarrow> bool" where
  "selects_data key = (map to_lower key = ''data'')"

record requestData =
  Data :: string

fun object_into :: "(string \<times> json) list \<Rightarrow> string \<Rightarrow> bool \<Rightarrow> string \<times> bool" where
  "object_into [] d failed = (d, failed)"
| "object_into ((key, v) # kvs) d failed =
     (if selects_data key then
        (case v of
           JString s \<Rightarrow> object_into kvs s failed
         | JNull \<Rightarrow> object_into kvs d failed
         | _ \<Rightarrow> object_into kvs d True)
      else object_into kvs d failed)"

definition Decode_requestData :: "nat \<Rightarrow> Body \<Rightarrow> decode_error + requestData" where
  "Decode_requestData limit b =
     (case read_value limit b of
        Inl err \<Rightarrow> Inl err
      | Inr JNull \<Rightarrow> Inr \<lparr>Data = []\<rparr>
      | Inr (JObject kvs) \<Rightarrow>
          (case object_into kvs [] False of
             (d, failed) \<Rightarrow> if failed then Inl UnmarshalTypeError else Inr \<lparr>Data = d\<rparr>)
      | Inr _ \<Rightarrow> Inl UnmarshalTypeError)"

record JsonResponse =
  Status :: string
  Received :: requestData

text \<open>What \<open>json.Encoder\<close> writes for a \<open>JsonResponse\<close>, by the tags of its fields.\<close>

definition Marshal_JsonResponse :: "JsonResponse \<Rightarrow> json" where
  "Marshal_JsonResponse r =
     JObject [(''status'', JString (Status r)),
              (''received'', JObject [(''data'', JString (Data (Received r)))])]"

definition post_headers :: "(string \<times> string) list" where
  "post_headers =
     [(''Content-Type'', ''application/json''),
      (''X-Content-Type-Options'', ''nosniff''),
      (''X-Frame-Options'', ''DENY''),
      (''Content-Security-Policy'', ''default-src '' @ [CHR 0x27] @ ''self'' @ [CHR 0x27])]"

definition handlePost :: "Request \<Rightarrow> response" where
  "handlePost r =
     (case Decode_requestData (1024 * 1024) (ReqBody r) of
        Inl err \<Rightarrow> Error StatusBadRequest ''Invalid or empty JSON data''
      | Inr requestData \<Rightarrow>
          if Data requestData = [] then Error StatusBadRequest ''Invalid or empty JSON data''
          else WriteJSON post_headers
                 (Marshal_JsonResponse \<lparr>Status = ''success'', Received = requestData\<rparr>))"

section \<open>server4\<close>

text \<open>The file \<^verbatim>\<open>src/server4/go-server4.go\<close>, lines 1 to 250.\<close>

subsection \<open>The cache\<close>

text \<open>
  Lines 22 to 78. The flags \<open>-dir\<close> and \<open>-cache\<close> are parameters: \<open>baseDir\<close>, used as it is given, and
  \<open>ttl\<close>, the cache TTL in nanoseconds.
\<close>

record cacheEntry4 =
  info :: FileInfo
  modTime :: int
  lastAccess :: int

type_synonym cache4 = "string \<rightharpoonup> cacheEntry4"

definition getFromCache :: "int \<Rightarrow> int \<Rightarrow> cache4 \<Rightarrow> string \<Rightarrow> FileInfo option \<times> cache4" where
  "getFromCache ttl now cache path =
     (case cache path of
        Some entry \<Rightarrow>
          if now - lastAccess entry < ttl then
            (Some (info entry), cache(path \<mapsto> entry\<lparr>lastAccess := now\<rparr>))
          else (None, cache(path := None))
      | None \<Rightarrow> (None, cache))"

definition putInCache :: "int \<Rightarrow> cache4 \<Rightarrow> string \<Rightarrow> FileInfo \<Rightarrow> cache4" where
  "putInCache now cache path fi =
     cache(path \<mapsto> \<lparr>info = fi, modTime = ModTime fi, lastAccess = now\<rparr>)"

text \<open>
  One tick of the ticker in \<open>cleanCache\<close>, at the instant \<open>now\<close>, and the loop itself over
  the events it selects on: a tick with its instant, or the closing of \<open>stop\<close>.
\<close>

definition sweep :: "int \<Rightarrow> int \<Rightarrow> cache4 \<Rightarrow> cache4" where
  "sweep ttl now cache =
     (\<lambda>path. case cache path of
        None \<Rightarrow> None
      | Some entry \<Rightarrow> if now - lastAccess entry > ttl then None else Some entry)"

datatype event = Tick int | Stop

fun cleanCache4 :: "int \<Rightarrow> event list \<Rightarrow> cache4 \<Rightarrow> cache4" where
  "cleanCache4 ttl [] cache = cache"
| "cleanCache4 ttl (Tick now # evs) cache = cleanCache4 ttl evs (sweep ttl now cache)"
| "cleanCache4 ttl (Stop # evs) cache = cache"

subsection \<open>\<open>dirList\<close>\<close>

text \<open>Lines 140 to 183.\<close>

definition less_dir_name :: "DirEntry \<Rightarrow> DirEntry \<Rightarrow> bool" where
  "less_dir_name a b =
     (if EntryIsDir a \<noteq> EntryIsDir b then EntryIsDir a else Name a < Name b)"

definition RFC3339 :: string where
  "RFC3339 = ''2006-01-02T15:04:05Z07:00''"

definition page_head4 :: "string \<Rightarrow> string \<Rightarrow> string" where
  "page_head4 title heading =
     ''<html><head><title>Index of '' @ title @ ''</title></head><body>''
     @ ''<h1>Index of '' @ heading @ ''</h1><ul>''"

definition entry_html4 :: "string \<Rightarrow> string \<Rightarrow> int \<Rightarrow> string \<Rightarrow> string" where
  \<open>entry_html4 path name sz mtime =
     ''<li><a href="'' @ path @ ''">'' @ name @ ''</a> '' @ Itoa sz @ '' bytes '' @ mtime
     @ ''</li>''\<close>

definition parent_link4 :: "string \<Rightarrow> string" where
  "parent_link4 relPath =
     (if relPath \<noteq> ''/'' then
        let parent = Dir relPath;
            parent = (if parent = ''.'' then ''/'' else parent)
        in parent_html (HTMLEscapeString parent)
      else [])"

definition entry_line4 :: "env \<Rightarrow> string \<Rightarrow> DirEntry \<Rightarrow> string option" where
  "entry_line4 e relPath f =
     (let name = Name f;
          path = Join relPath name;
          path = (if EntryIsDir f then path @ ''/'' else path)
      in case Info f of
           None \<Rightarrow> None
         | Some fi \<Rightarrow>
             Some (entry_html4 (HTMLEscapeString path) (HTMLEscapeString name) (Size fi)
                     (Format e RFC3339 (ModTime fi))))"

fun list_entries4 :: "env \<Rightarrow> string \<Rightarrow> DirEntry list \<Rightarrow> string option" where
  "list_entries4 e relPath [] = Some []"
| "list_entries4 e relPath (f # files) =
     (if HasPrefix (Name f) ''.'' then list_entries4 e relPath files
      else
        (case entry_line4 e relPath f of
           None \<Rightarrow> None
         | Some line \<Rightarrow>
             (case list_entries4 e relPath files of
                None \<Rightarrow> None
              | Some rest \<Rightarrow> Some (line @ rest))))"

text \<open>\<open>dirList\<close>, and the part of it that follows a successful \<open>os.ReadDir\<close>.\<close>

definition dirList_page :: "env \<Rightarrow> string \<Rightarrow> DirEntry list \<Rightarrow> response" where
  "dirList_page e relPath files =
     (let files = sort_Slice less_dir_name files in
      case list_entries4 e relPath files of
        None \<Rightarrow> Panic
      | Some items \<Rightarrow>
          Page [(''Content-Type'', ''text/html; charset=utf-8'')]
            (page_head4 (EscapeString relPath) (EscapeString relPath)
             @ parent_link4 relPath @ items @ ''</ul></body></html>''))"

definition dirList :: "env \<Rightarrow> string \<Rightarrow> string \<Rightarrow> response" where
  "dirList e fsPath relPath =
     (case ReadDir e fsPath of
        None \<Rightarrow> Error StatusForbidden ''Forbidden''
      | Some files \<Rightarrow> dirList_page e relPath files)"

subsection \<open>\<open>fileHandler\<close>\<close>

text \<open>
  Lines 109 to 138: the response, the cache afterwards and the file system operations;
  \<open>serve_info\<close> is the end of the handler, from \<open>info.IsDir()\<close> on.
\<close>

definition serve_info ::
  "env \<Rightarrow> string \<Rightarrow> string \<Rightarrow> FileInfo \<Rightarrow> cache4 \<Rightarrow> fsop list \<Rightarrow> response \<times> cache4 \<times> fsop list" where
  "serve_info e fsPath relPath fi cache ops =
     (if IsDir fi then (dirList e fsPath relPath, cache, ops @ [OpReadDir fsPath])
      else (ServeFile [] fsPath, cache, ops @ [OpServeFile fsPath]))"

definition fileHandler ::
  "string \<Rightarrow> int \<Rightarrow> env \<Rightarrow> int \<Rightarrow> cache4 \<Rightarrow> string \<Rightarrow> response \<times> cache4 \<times> fsop list" where
  "fileHandler baseDir ttl e now cache urlPath =
     (let relPath = Clean urlPath;
          fsPath = Join baseDir relPath
      in case Rel baseDir fsPath of
           Inl err \<Rightarrow> (Error StatusNotFound ''Not found'', cache, [])
         | Inr rel \<Rightarrow>
             if HasPrefix rel ''..'' then (Error StatusNotFound ''Not found'', cache, [])
             else
               (case getFromCache ttl now cache fsPath of
                  (Some cached, cache) \<Rightarrow> serve_info e fsPath relPath cached cache []
                | (None, cache) \<Rightarrow>
                    (case Stat e fsPath of
                       None \<Rightarrow> (Error StatusNotFound ''404 page not found'', cache, [OpStat fsPath])
                     | Some fi \<Rightarrow>
                         serve_info e fsPath relPath fi (putInCache now cache fsPath fi)
                           [OpStat fsPath])))"

subsection \<open>\<open>apiHandler\<close>\<close>






section \<open>Notions used to state the properties\<close>

text \<open>
  The values a JSON object offers for the field \<open>Data\<close>: those under a key that selects
  the field, in the order of the object, without the \<open>null\<close>s.
\<close>

definition data_values :: "(string \<times> json) list \<Rightarrow> json list" where
  "data_values kvs =
     filter (\<lambda>v. v \<noteq> JNull) (map snd (filter (\<lambda>kv. selects_data (fst kv)) kvs))"

fun is_JString :: "json \<Rightarrow> bool" where
  "is_JString (JString s) = True"
| "is_JString v = False"

fun string_of :: "json \<Rightarrow> string" where
  "string_of (JString s) = s"
| "string_of v = []"


text \<open>
  An element of a cleaned path that names a file or a directory. A path lies within the
  root when it is the root or begins with the root followed by the separator (the root
  \<open>/\<close> ends with the separator already).
\<close>

definition name_elem :: "string \<Rightarrow> bool" where
  "name_elem e = (e \<noteq> [] \<and> e \<noteq> ''.'' \<and> e \<noteq> ''..'' \<and> CHR ''/'' \<notin> set e)"

definition within_root :: "string \<Rightarrow> string \<Rightarrow> bool" where
  "within_root root p = (p = root \<or> HasPrefix p (if root = ''/'' then root else root @ ''/''))"

text \<open>
  An entry is hidden when its name begins with a dot. The order of the listing the
  specification asks for. The characters that open or close markup in HTML text and in
  attribute values, and the markup characters of a string.
\<close>

definition hidden :: "DirEntry \<Rightarrow> bool" where
  "hidden f = HasPrefix (Name f) ''.''"


definition is_markup :: "char \<Rightarrow> bool" where
  \<open>is_markup c = (c = CHR ''<'' \<or> c = CHR ''>'' \<or> c = CHR 0x22 \<or> c = CHR 0x27)\<close>

definition markup :: "string \<Rightarrow> string" where
  "markup s = filter is_markup s"

text \<open>
  An example: the directory \<open>/srv\<close> with a hidden file, a subdirectory and a text file, a
  file in the sibling directory \<open>/srv-evil\<close>, and two caches.
\<close>

definition example_files :: "DirEntry list" where
  "example_files =
     [\<lparr>Name = ''.secret'', EntryIsDir = False, Info = Some \<lparr>Size = 3, ModTime = 4, IsDir = False\<rparr>\<rparr>,
      \<lparr>Name = ''a<b.txt'', EntryIsDir = False, Info = Some \<lparr>Size = 7, ModTime = 3, IsDir = False\<rparr>\<rparr>,
      \<lparr>Name = ''d'', EntryIsDir = True, Info = Some \<lparr>Size = 4096, ModTime = 5, IsDir = True\<rparr>\<rparr>,
      \<lparr>Name = ''f.txt'', EntryIsDir = False, Info = Some \<lparr>Size = 2, ModTime = 9, IsDir = False\<rparr>\<rparr>]"

definition example_env :: env where
  "example_env =
     \<lparr>Stat = (\<lambda>p.
         if p = ''/srv'' then Some \<lparr>Size = 4096, ModTime = 1, IsDir = True\<rparr>
         else if p = ''/srv/f.txt'' then Some \<lparr>Size = 2, ModTime = 9, IsDir = False\<rparr>
         else if p = ''/srv/.secret'' then Some \<lparr>Size = 3, ModTime = 4, IsDir = False\<rparr>
         else if p = ''/srv/d'' then Some \<lparr>Size = 4096, ModTime = 5, IsDir = True\<rparr>
         else if p = ''/srv-evil/x'' then Some \<lparr>Size = 6, ModTime = 2, IsDir = False\<rparr>
         else None),
       ReadDir = (\<lambda>p.
         if p = ''/srv'' then Some example_files
         else if p = ''/srv/d'' then Some []
         else None),
       TypeByExtension = (\<lambda>ext. if ext = ''.txt'' then ''text/plain; charset=utf-8'' else []),
       Format = (\<lambda>layout t. ''2024-01-01 00:00:00'')\<rparr>"

definition example_cache :: fileCache where
  "example_cache =
     [''/srv/f.txt'' \<mapsto> \<lparr>entry_ModTime = 9, entry_IsDir = False, entry_LastAccess = 0\<rparr>,
      ''/srv/d'' \<mapsto> \<lparr>entry_ModTime = 5, entry_IsDir = False, entry_LastAccess = 0\<rparr>]"

definition example_cache4 :: cache4 where
  "example_cache4 =
     [''/srv/f.txt'' \<mapsto> \<lparr>info = \<lparr>Size = 1, ModTime = 8, IsDir = False\<rparr>, modTime = 8, lastAccess = 0\<rparr>]"

declare digits.simps [simp del]

section \<open>The JSON echo endpoints\<close>

lemma data_values_Nil [simp]: "data_values [] = []"
  by (simp add: data_values_def)

lemma data_values_Cons:
  "data_values ((k, v) # kvs) =
     (if selects_data k \<and> v \<noteq> JNull then v # data_values kvs else data_values kvs)"
  by (simp add: data_values_def)

lemma object_into_failed:
  "snd (object_into kvs d failed) \<longleftrightarrow> failed \<or> \<not> list_all is_JString (data_values kvs)"
proof (induction kvs arbitrary: d failed)
  case Nil
  then show ?case by simp
next
  case (Cons kv kvs)
  obtain k v where kv: "kv = (k, v)" by (cases kv)
  show ?case
    unfolding kv by (cases v; cases "selects_data k") (simp_all add: data_values_Cons Cons.IH)
qed

lemma object_into_data:
  "list_all is_JString (data_values kvs) \<Longrightarrow>
   fst (object_into kvs d failed) =
     (if data_values kvs = [] then d else string_of (last (data_values kvs)))"
proof (induction kvs arbitrary: d failed)
  case Nil
  then show ?case by simp
next
  case (Cons kv kvs)
  obtain k v where kv: "kv = (k, v)" by (cases kv)
  from Cons.prems show ?case
    unfolding kv by (cases v; cases "selects_data k") (simp_all add: data_values_Cons Cons.IH)
qed

lemma handlePost_status: "status (handlePost r) = Some 200 \<or> status (handlePost r) = Some 400"
  by (auto simp: handlePost_def StatusBadRequest_def split: sum.splits)

text \<open>
  Claim C9, as amended. In server3 the echo endpoint answers 200 exactly when the first
  JSON value of the body is read within the cap of 1 MiB and is an object in which every
  value under a key equal to \<open>data\<close> up to the case of its letters is a string or \<open>null\<close>,
  at least one of them is a string, and the last string among them is not empty. Every
  other body is answered 400 (\<open>handlePost_status\<close>).
\<close>

theorem handlePost_accepts_iff:
  "status (handlePost r) = Some 200 \<longleftrightarrow>
     Needed (ReqBody r) \<le> 1024 * 1024 \<and>
     (\<exists>kvs. Value (ReqBody r) = Some (JObject kvs) \<and>
        list_all is_JString (data_values kvs) \<and>
        data_values kvs \<noteq> [] \<and> string_of (last (data_values kvs)) \<noteq> [])"
proof -
  have obj: "object_into kvs [] False =
      (if data_values kvs = [] then [] else string_of (last (data_values kvs)), False)"
    if "list_all is_JString (data_values kvs)" for kvs
    using that object_into_data [of kvs "[]" False] object_into_failed [of kvs "[]" False]
    by (cases "object_into kvs [] False") auto
  have bad: "snd (object_into kvs [] False)" if "\<not> list_all is_JString (data_values kvs)" for kvs
    using that by (simp add: object_into_failed)
  show ?thesis
  proof (cases "read_value (1024 * 1024) (ReqBody r)")
    case (Inl err)
    then show ?thesis
      by (auto simp: handlePost_def Decode_requestData_def read_value_def StatusBadRequest_def
          split: if_splits option.splits)
  next
    case (Inr v)
    then have rv: "Needed (ReqBody r) \<le> 1024 * 1024" "Value (ReqBody r) = Some v"
      by (auto simp: read_value_def split: if_splits option.splits)
    show ?thesis
    proof (cases v)
      case (JObject kvs)
      show ?thesis
      proof (cases "list_all is_JString (data_values kvs)")
        case True
        with Inr JObject rv obj [OF True] show ?thesis
          by (auto simp: handlePost_def Decode_requestData_def StatusBadRequest_def)
      next
        case False
        with Inr JObject rv bad [OF False] show ?thesis
          by (cases "object_into kvs [] False")
             (auto simp: handlePost_def Decode_requestData_def StatusBadRequest_def)
      qed
    qed (use Inr rv in \<open>auto simp: handlePost_def Decode_requestData_def StatusBadRequest_def\<close>)
  qed
qed

theorem handlePost_accepts_iff_witness:
  "status (handlePost \<lparr>Method = ''POST'', URLPath = ''/post'',
      ReqBody = \<lparr>Value = Some (JObject [(''data'', JString ''x'')]), Needed = 12\<rparr>\<rparr>) = Some 200
   \<and> status (handlePost \<lparr>Method = ''POST'', URLPath = ''/post'',
      ReqBody = \<lparr>Value = Some (JObject [(''other'', JString ''x'')]), Needed = 13\<rparr>\<rparr>) \<noteq> Some 200
   \<and> status (handlePost \<lparr>Method = ''POST'', URLPath = ''/post'',
      ReqBody = \<lparr>Value = Some (JObject [(''data'', JNumber ''5'')]), Needed = 10\<rparr>\<rparr>) \<noteq> Some 200
   \<and> status (handlePost \<lparr>Method = ''POST'', URLPath = ''/post'',
      ReqBody = \<lparr>Value = Some (JObject [(''data'', JString [])]), Needed = 11\<rparr>\<rparr>) \<noteq> Some 200"
  using
    handlePost_accepts_iff [of "\<lparr>Method = ''POST'', URLPath = ''/post'',
      ReqBody = \<lparr>Value = Some (JObject [(''data'', JString ''x'')]), Needed = 12\<rparr>\<rparr>"]
    handlePost_accepts_iff [of "\<lparr>Method = ''POST'', URLPath = ''/post'',
      ReqBody = \<lparr>Value = Some (JObject [(''other'', JString ''x'')]), Needed = 13\<rparr>\<rparr>"]
    handlePost_accepts_iff [of "\<lparr>Method = ''POST'', URLPath = ''/post'',
      ReqBody = \<lparr>Value = Some (JObject [(''data'', JNumber ''5'')]), Needed = 10\<rparr>\<rparr>"]
    handlePost_accepts_iff [of "\<lparr>Method = ''POST'', URLPath = ''/post'',
      ReqBody = \<lparr>Value = Some (JObject [(''data'', JString [])]), Needed = 11\<rparr>\<rparr>"]
  by (simp add: data_values_def selects_data_def to_lower_def char_of_eq_iff)

text \<open>
  The claim as it was stated fails: an object without a key \<open>data\<close> whose key \<open>DATA\<close>
  holds a non-empty string is answered 200.
\<close>

theorem handlePost_accepts_other_case:
  "status (handlePost \<lparr>Method = ''POST'', URLPath = ''/post'',
      ReqBody = \<lparr>Value = Some (JObject [(''DATA'', JString ''x'')]), Needed = 12\<rparr>\<rparr>) = Some 200"
  by (simp add: handlePost_def Decode_requestData_def read_value_def selects_data_def
      to_lower_def Marshal_JsonResponse_def char_of_eq_iff)




section \<open>The cache on the request path\<close>

lemma ex_paths:
  "Join ''/srv'' (Clean ''/f.txt'') = ''/srv/f.txt''"
  "Join ''/srv'' (Clean ''/d'') = ''/srv/d''"
  "Rel ''/srv'' ''/srv/f.txt'' = Inr ''f.txt''"
  by code_simp+

lemma ex_stat:
  "Stat example_env ''/srv/f.txt'' = Some \<lparr>Size = 2, ModTime = 9, IsDir = False\<rparr>"
  "Stat example_env ''/srv/d'' = Some \<lparr>Size = 4096, ModTime = 5, IsDir = True\<rparr>"
  "Stat example_env ''/srv/.secret'' = Some \<lparr>Size = 3, ModTime = 4, IsDir = False\<rparr>"
  "ReadDir example_env ''/srv/d'' = Some []"
  by (simp_all add: example_env_def)

lemma ex_cache:
  "example_cache ''/srv/f.txt'' = Some \<lparr>entry_ModTime = 9, entry_IsDir = False, entry_LastAccess = 0\<rparr>"
  "example_cache ''/srv/d'' = Some \<lparr>entry_ModTime = 5, entry_IsDir = False, entry_LastAccess = 0\<rparr>"
  "example_cache4 ''/srv/f.txt'' =
     Some \<lparr>info = \<lparr>Size = 1, ModTime = 8, IsDir = False\<rparr>, modTime = 8, lastAccess = 0\<rparr>"
  by (simp_all add: example_cache_def example_cache4_def)


lemma ex_fileHandler_hit:
  "fileHandler ''/srv'' 10000000000 example_env 7 example_cache4 ''/f.txt'' =
     (ServeFile [] ''/srv/f.txt'',
      example_cache4(''/srv/f.txt'' \<mapsto> \<lparr>info = \<lparr>Size = 1, ModTime = 8, IsDir = False\<rparr>, modTime = 8, lastAccess = 7\<rparr>),
      [OpServeFile ''/srv/f.txt''])"
  by (simp add: fileHandler_def ex_paths HasPrefix_def ex_cache getFromCache_def serve_info_def Let_def)




text \<open>
  Claim C3, as amended. In server3 a request whose path passes the prefix check and whose
  stat succeeds leaves the cache with the entry of that path, and nothing else, rewritten
  from the fresh stat: its modification time, its directory flag and the current instant
  as last access. When the cached modification time equals the fresh one, the entry
  therefore keeps its modification time, and its last access and its directory flag are
  refreshed. A request that is rejected or whose stat fails leaves the cache as it was.
\<close>

theorem cache_written_from_stat:
  "handleBrowse base e now c url = (r, c', ops) \<longrightarrow>
     (HasPrefix (Join base (Clean url)) base \<and> Stat e (Join base (Clean url)) = Some fi \<longrightarrow>
        c' = c(Join base (Clean url) \<mapsto>
               \<lparr>entry_ModTime = ModTime fi, entry_IsDir = IsDir fi, entry_LastAccess = now\<rparr>)
        \<and> (\<forall>old. c (Join base (Clean url)) = Some old \<and> entry_ModTime old = ModTime fi \<longrightarrow>
              c' (Join base (Clean url)) = Some (old\<lparr>entry_IsDir := IsDir fi, entry_LastAccess := now\<rparr>)))
     \<and> (\<not> HasPrefix (Join base (Clean url)) base \<or> Stat e (Join base (Clean url)) = None \<longrightarrow> c' = c)"
  by (auto simp: handleBrowse_def browse_stat_def Let_def new_entry_def
      split: option.splits if_splits)

theorem cache_written_from_stat_witness:
  "fst (snd (handleBrowse ''/srv'' example_env 7 example_cache ''/f.txt'')) ''/srv/f.txt''
     = Some \<lparr>entry_ModTime = 9, entry_IsDir = False, entry_LastAccess = 7\<rparr>
   \<and> fst (snd (handleBrowse ''/srv'' example_env 7 example_cache ''/f.txt'')) ''/srv/d''
     = Some \<lparr>entry_ModTime = 5, entry_IsDir = False, entry_LastAccess = 0\<rparr>"
  using cache_written_from_stat [of "''/srv''" example_env 7 example_cache "''/f.txt''"
      "fst (handleBrowse ''/srv'' example_env 7 example_cache ''/f.txt'')"
      "fst (snd (handleBrowse ''/srv'' example_env 7 example_cache ''/f.txt''))"
      "snd (snd (handleBrowse ''/srv'' example_env 7 example_cache ''/f.txt''))"
      "\<lparr>Size = 2, ModTime = 9, IsDir = False\<rparr>"]
  by (simp add: ex_paths HasPrefix_def ex_stat ex_cache)

text \<open>
  The claim as it was stated fails: the cached entry of \<open>/srv/d\<close> says a file modified
  at 5, the stat finds a directory modified at 5, and the entry after the request differs
  from the cached one in its directory flag too, not in its last access only.
\<close>

theorem cache_entry_flag_rewritten:
  "example_cache ''/srv/d'' = Some \<lparr>entry_ModTime = 5, entry_IsDir = False, entry_LastAccess = 0\<rparr>
   \<and> Stat example_env ''/srv/d'' = Some \<lparr>Size = 4096, ModTime = 5, IsDir = True\<rparr>
   \<and> fst (snd (handleBrowse ''/srv'' example_env 7 example_cache ''/d'')) ''/srv/d''
     = Some \<lparr>entry_ModTime = 5, entry_IsDir = True, entry_LastAccess = 7\<rparr>"
  by (simp add: handleBrowse_def ex_paths HasPrefix_def ex_stat ex_cache new_entry_def Let_def)

section \<open>The cache sweep\<close>

lemma cleanCache4_keeps:
  "cleanCache4 ttl evs c path = Some entry \<Longrightarrow> c path = Some entry"
proof (induction evs arbitrary: c)
  case Nil
  then show ?case by simp
next
  case (Cons ev evs)
  show ?case
  proof (cases ev)
    case (Tick now)
    with Cons.prems have "sweep ttl now c path = Some entry"
      by (auto dest: Cons.IH)
    then show ?thesis
      by (auto simp: sweep_def split: option.splits if_splits)
  next
    case Stop
    with Cons.prems show ?thesis by simp
  qed
qed

text \<open>
  Claim C4. After a sweep tick at the instant \<open>now\<close>, the store holds exactly the entries
  it held before whose last access is at most the TTL old, unchanged: an entry whose last
  access is older than the TTL is absent, and an entry accessed within the last TTL
  interval is not removed. This holds for \<open>cleanCache\<close> of server3 (TTL five minutes) and
  for a tick of \<open>cleanCache\<close> of server4 (TTL from the flag), also when more events
  follow the tick. A request at the instant \<open>t\<close> that reaches the cache leaves the entry
  of its path with the last access \<open>t\<close>, so a sweep that comes at most the TTL later keeps
  that entry: an entry accessed in every TTL interval never expires.
\<close>

theorem sweep_keeps_exactly_fresh:
  "(cleanCache now c path = Some entry \<longleftrightarrow>
      c path = Some entry \<and> now - entry_LastAccess entry \<le> cacheTTL)
   \<and> (sweep ttl now c4 path = Some entry4 \<longleftrightarrow>
      c4 path = Some entry4 \<and> now - lastAccess entry4 \<le> ttl)
   \<and> (cleanCache4 ttl (Tick now # evs) c4 path = Some entry4 \<longrightarrow>
      c4 path = Some entry4 \<and> now - lastAccess entry4 \<le> ttl)
   \<and> (HasPrefix (Join base (Clean url)) base \<and> Stat e (Join base (Clean url)) = Some fi \<and>
      now - t \<le> cacheTTL \<longrightarrow>
      cleanCache now (fst (snd (handleBrowse base e t c url))) (Join base (Clean url))
        = Some \<lparr>entry_ModTime = ModTime fi, entry_IsDir = IsDir fi, entry_LastAccess = t\<rparr>)
   \<and> (Rel base4 (Join base4 (Clean url)) = Inr rel \<and> \<not> HasPrefix rel ''..'' \<and> now - t \<le> ttl \<longrightarrow>
      sweep ttl now (fst (snd (fileHandler base4 ttl e t c4 url))) (Join base4 (Clean url))
        = fst (snd (fileHandler base4 ttl e t c4 url)) (Join base4 (Clean url)))"
proof (intro conjI impI)
  show "cleanCache now c path = Some entry \<longleftrightarrow>
      c path = Some entry \<and> now - entry_LastAccess entry \<le> cacheTTL"
    by (auto simp: cleanCache_def split: option.splits)
  show sw: "sweep ttl now c4 path = Some entry4 \<longleftrightarrow>
      c4 path = Some entry4 \<and> now - lastAccess entry4 \<le> ttl"
    by (auto simp: sweep_def split: option.splits)
  assume "cleanCache4 ttl (Tick now # evs) c4 path = Some entry4"
  then have "sweep ttl now c4 path = Some entry4"
    by (auto dest: cleanCache4_keeps)
  with sw show "c4 path = Some entry4" "now - lastAccess entry4 \<le> ttl" by simp_all
next
  assume "HasPrefix (Join base (Clean url)) base \<and> Stat e (Join base (Clean url)) = Some fi \<and>
      now - t \<le> cacheTTL"
  then show "cleanCache now (fst (snd (handleBrowse base e t c url))) (Join base (Clean url))
        = Some \<lparr>entry_ModTime = ModTime fi, entry_IsDir = IsDir fi, entry_LastAccess = t\<rparr>"
    by (auto simp: cleanCache_def handleBrowse_def browse_stat_def new_entry_def Let_def
        split: option.splits)
next
  assume "Rel base4 (Join base4 (Clean url)) = Inr rel \<and> \<not> HasPrefix rel ''..'' \<and> now - t \<le> ttl"
  then show "sweep ttl now (fst (snd (fileHandler base4 ttl e t c4 url))) (Join base4 (Clean url))
        = fst (snd (fileHandler base4 ttl e t c4 url)) (Join base4 (Clean url))"
    by (auto simp: sweep_def fileHandler_def getFromCache_def putInCache_def serve_info_def Let_def
        split: option.splits)
qed

theorem sweep_keeps_exactly_fresh_witness:
  "cleanCache 400000000000
     [''/srv/old'' \<mapsto> \<lparr>entry_ModTime = 1, entry_IsDir = False, entry_LastAccess = 0\<rparr>,
      ''/srv/new'' \<mapsto> \<lparr>entry_ModTime = 1, entry_IsDir = False, entry_LastAccess = 100000000000\<rparr>]
     ''/srv/new''
   = Some \<lparr>entry_ModTime = 1, entry_IsDir = False, entry_LastAccess = 100000000000\<rparr>
   \<and> cleanCache 400000000000
     [''/srv/old'' \<mapsto> \<lparr>entry_ModTime = 1, entry_IsDir = False, entry_LastAccess = 0\<rparr>,
      ''/srv/new'' \<mapsto> \<lparr>entry_ModTime = 1, entry_IsDir = False, entry_LastAccess = 100000000000\<rparr>]
     ''/srv/old''
   \<noteq> Some \<lparr>entry_ModTime = 1, entry_IsDir = False, entry_LastAccess = 0\<rparr>
   \<and> cleanCache 300000000007 (fst (snd (handleBrowse ''/srv'' example_env 7 example_cache ''/f.txt'')))
       ''/srv/f.txt''
     = Some \<lparr>entry_ModTime = 9, entry_IsDir = False, entry_LastAccess = 7\<rparr>
   \<and> sweep 10000000000 10000000007
       (fst (snd (fileHandler ''/srv'' 10000000000 example_env 7 example_cache4 ''/f.txt'')))
       ''/srv/f.txt''
     = Some \<lparr>info = \<lparr>Size = 1, ModTime = 8, IsDir = False\<rparr>, modTime = 8, lastAccess = 7\<rparr>"
proof -
  let ?c = "[''/srv/old'' \<mapsto> \<lparr>entry_ModTime = 1, entry_IsDir = False, entry_LastAccess = 0\<rparr>,
      ''/srv/new'' \<mapsto> \<lparr>entry_ModTime = 1, entry_IsDir = False, entry_LastAccess = 100000000000\<rparr>]"
  have "cleanCache 400000000000 ?c ''/srv/new''
      = Some \<lparr>entry_ModTime = 1, entry_IsDir = False, entry_LastAccess = 100000000000\<rparr>"
    using sweep_keeps_exactly_fresh [THEN conjunct1, of 400000000000 ?c "''/srv/new''"
        "\<lparr>entry_ModTime = 1, entry_IsDir = False, entry_LastAccess = 100000000000\<rparr>"]
    by (simp add: cacheTTL_def)
  moreover have "cleanCache 400000000000 ?c ''/srv/old''
      \<noteq> Some \<lparr>entry_ModTime = 1, entry_IsDir = False, entry_LastAccess = 0\<rparr>"
    using sweep_keeps_exactly_fresh [THEN conjunct1, of 400000000000 ?c "''/srv/old''"
        "\<lparr>entry_ModTime = 1, entry_IsDir = False, entry_LastAccess = 0\<rparr>"]
    by (simp add: cacheTTL_def)
  moreover have "cleanCache 300000000007
      (fst (snd (handleBrowse ''/srv'' example_env 7 example_cache ''/f.txt''))) ''/srv/f.txt''
      = Some \<lparr>entry_ModTime = 9, entry_IsDir = False, entry_LastAccess = 7\<rparr>"
    using sweep_keeps_exactly_fresh [THEN conjunct2, THEN conjunct2, THEN conjunct2, THEN conjunct1,
        of "''/srv''" "''/f.txt''" example_env "\<lparr>Size = 2, ModTime = 9, IsDir = False\<rparr>"
        300000000007 7 example_cache]
    by (simp add: cacheTTL_def ex_paths ex_stat HasPrefix_def)
  moreover have "sweep 10000000000 10000000007
      (fst (snd (fileHandler ''/srv'' 10000000000 example_env 7 example_cache4 ''/f.txt'')))
      ''/srv/f.txt''
      = Some \<lparr>info = \<lparr>Size = 1, ModTime = 8, IsDir = False\<rparr>, modTime = 8, lastAccess = 7\<rparr>"
    using sweep_keeps_exactly_fresh [THEN conjunct2, THEN conjunct2, THEN conjunct2, THEN conjunct2,
        of "''/srv''" "''/f.txt''" "''f.txt''" 10000000007 7 10000000000 example_env example_cache4]
    by (simp add: ex_paths HasPrefix_def ex_fileHandler_hit)
  ultimately show ?thesis by blast
qed

section \<open>Directory listings\<close>

subsection \<open>Sorting\<close>

















lemma list_entries_lines:
  "list_entries e p files = Some items \<Longrightarrow>
     items = concat (map (\<lambda>f. the (entry_line e p f)) (filter (\<lambda>f. \<not> hidden f) files)) \<and>
     (\<forall>f\<in>set files. \<not> hidden f \<longrightarrow> entry_line e p f \<noteq> None)"
  by (induction files arbitrary: items) (auto simp: hidden_def split: option.splits if_splits)

lemma list_entries4_lines:
  "list_entries4 e p files = Some items \<Longrightarrow>
     items = concat (map (\<lambda>f. the (entry_line4 e p f)) (filter (\<lambda>f. \<not> hidden f) files)) \<and>
     (\<forall>f\<in>set files. \<not> hidden f \<longrightarrow> entry_line4 e p f \<noteq> None)"
  by (induction files arbitrary: items) (auto simp: hidden_def split: option.splits if_splits)





subsection \<open>Hidden entries\<close>


subsection \<open>Escaping\<close>

lemma markup_append [simp]: "markup (a @ b) = markup a @ markup b"
  by (simp add: markup_def)

lemma markup_EscapeString: "markup (EscapeString s) = []"
  by (induction s) (auto simp: markup_def escape_byte_def is_markup_def)

lemma markup_HTMLEscapeString: "markup (HTMLEscapeString s) = []"
  by (induction s) (auto simp: markup_def template_escape_byte_def is_markup_def)

lemma digit_not_markup: "k < 10 \<Longrightarrow> \<not> is_markup (char_of (48 + k :: nat))"
  by (auto simp: is_markup_def char_of_eq_iff take_bit_nat_eq_self)

lemma markup_digits: "markup (digits n) = []"
proof (induction n rule: digits.induct)
  case (1 n)
  show ?case
  proof (cases "n < 10")
    case True
    then show ?thesis
      using digit_not_markup [of n] by (subst digits.simps) (simp add: markup_def)
  next
    case False
    have "n mod 10 < 10" by simp
    then have "\<not> is_markup (char_of (48 + n mod 10))" by (rule digit_not_markup)
    with False 1 show ?thesis
      by (subst digits.simps) (simp add: markup_def)
  qed
qed

lemma markup_Itoa: "markup (Itoa i) = []"
  using markup_digits by (simp add: Itoa_def markup_def is_markup_def)

lemma markup_Nil [simp]: "markup [] = []"
  by (simp add: markup_def)

lemma markup_parent_html:
  "markup (parent_html (EscapeString p)) = markup (parent_html [])"
  "markup (parent_html (HTMLEscapeString p)) = markup (parent_html [])"
  by (simp_all only: parent_html_def markup_append markup_EscapeString markup_HTMLEscapeString
      markup_Nil append_Nil)

lemma markup_entry_html:
  "markup (entry_html (EscapeString link) (EscapeString name) sz t) = markup (entry_html [] [] 0 t)"
  by (simp only: entry_html_def markup_append markup_EscapeString markup_Itoa markup_Nil append_Nil)

lemma markup_entry_html4:
  "markup (entry_html4 (HTMLEscapeString link) (HTMLEscapeString name) sz t) =
   markup (entry_html4 [] [] 0 t)"
  by (simp only: entry_html4_def markup_append markup_HTMLEscapeString markup_Itoa markup_Nil
      append_Nil)

text \<open>
  Claim C7. \<open>html.EscapeString\<close> and \<open>template.HTMLEscapeString\<close> leave no markup
  character in their result. The body of a listing is the head of the page, into which
  the request path goes escaped, the link to the parent, whose target goes escaped, and
  the lines of the entries that are not hidden, into each of which the link and the name
  of the entry go escaped; so the markup characters of the head, of the parent link and
  of every line are those of the same text with the path, the target, the link and the
  name left empty. This holds in server3 and in server4.
\<close>

theorem listing_escaped:
  "markup (EscapeString s) = [] \<and> markup (HTMLEscapeString s) = []
   \<and> markup (page_head (EscapeString reqPath) (EscapeString reqPath)) = markup (page_head [] [])
   \<and> markup (page_head4 (EscapeString reqPath) (EscapeString reqPath)) = markup (page_head4 [] [])
   \<and> markup (parent_link reqPath) = (if reqPath = ''/'' then [] else markup (parent_html []))
   \<and> markup (parent_link4 reqPath) = (if reqPath = ''/'' then [] else markup (parent_html []))
   \<and> (render_listing e reqPath files = Page hs body \<longrightarrow>
        body = page_head (EscapeString reqPath) (EscapeString reqPath) @ parent_link reqPath
               @ concat (map (\<lambda>f. the (entry_line e reqPath f))
                           (filter (\<lambda>f. \<not> hidden f) (sort_Slice less_name files)))
               @ ''</ul></body></html>'')
   \<and> (parent_link reqPath = [] \<or> (\<exists>parent. parent_link reqPath = parent_html (EscapeString parent)))
   \<and> (entry_line e reqPath f = Some line \<longrightarrow>
        (\<exists>fi. Info f = Some fi \<and> line = entry_html
                   (EscapeString (Join reqPath (Name f) @ (if EntryIsDir f then ''/'' else [])))
                   (EscapeString (Name f @ (if EntryIsDir f then ''/'' else [])))
                   (Size fi) (Format e ''2006-01-02 15:04:05'' (ModTime fi))
              \<and> markup line = markup (entry_html [] [] 0 (Format e ''2006-01-02 15:04:05'' (ModTime fi)))))
   \<and> (dirList_page e reqPath files = Page hs4 body4 \<longrightarrow>
        body4 = page_head4 (EscapeString reqPath) (EscapeString reqPath) @ parent_link4 reqPath
               @ concat (map (\<lambda>f. the (entry_line4 e reqPath f))
                           (filter (\<lambda>f. \<not> hidden f) (sort_Slice less_dir_name files)))
               @ ''</ul></body></html>'')
   \<and> (parent_link4 reqPath = [] \<or> (\<exists>parent. parent_link4 reqPath = parent_html (HTMLEscapeString parent)))
   \<and> (entry_line4 e reqPath f = Some line4 \<longrightarrow>
        (\<exists>fi. Info f = Some fi \<and> line4 = entry_html4
                   (HTMLEscapeString (Join reqPath (Name f) @ (if EntryIsDir f then ''/'' else [])))
                   (HTMLEscapeString (Name f)) (Size fi) (Format e RFC3339 (ModTime fi))
              \<and> markup line4 = markup (entry_html4 [] [] 0 (Format e RFC3339 (ModTime fi)))))"
proof (intro conjI impI)
  show "markup (EscapeString s) = []" "markup (HTMLEscapeString s) = []"
    by (rule markup_EscapeString markup_HTMLEscapeString)+
  show "markup (page_head (EscapeString reqPath) (EscapeString reqPath)) = markup (page_head [] [])"
    by (simp only: page_head_def markup_append markup_EscapeString markup_Nil append_Nil)
  show "markup (page_head4 (EscapeString reqPath) (EscapeString reqPath)) = markup (page_head4 [] [])"
    by (simp only: page_head4_def markup_append markup_EscapeString markup_Nil append_Nil)
  show "markup (parent_link reqPath) = (if reqPath = ''/'' then [] else markup (parent_html []))"
    by (simp add: parent_link_def Let_def markup_parent_html
        del: EscapeString.simps markup_append)
  show "markup (parent_link4 reqPath) = (if reqPath = ''/'' then [] else markup (parent_html []))"
    by (simp add: parent_link4_def Let_def markup_parent_html
        del: HTMLEscapeString.simps markup_append)
  show "parent_link reqPath = [] \<or> (\<exists>parent. parent_link reqPath = parent_html (EscapeString parent))"
    by (auto simp: parent_link_def Let_def)
  show "parent_link4 reqPath = [] \<or> (\<exists>parent. parent_link4 reqPath = parent_html (HTMLEscapeString parent))"
  proof (cases "reqPath = ''/''")
    case True
    then show ?thesis by (simp add: parent_link4_def)
  next
    case False
    then have "parent_link4 reqPath =
        parent_html (HTMLEscapeString (if Dir reqPath = ''.'' then ''/'' else Dir reqPath))"
      by (simp add: parent_link4_def Let_def del: HTMLEscapeString.simps)
    then show ?thesis by blast
  qed
next
  assume "render_listing e reqPath files = Page hs body"
  then show "body = page_head (EscapeString reqPath) (EscapeString reqPath) @ parent_link reqPath
               @ concat (map (\<lambda>f. the (entry_line e reqPath f))
                           (filter (\<lambda>f. \<not> hidden f) (sort_Slice less_name files)))
               @ ''</ul></body></html>''"
    by (auto simp: render_listing_def Let_def split: option.splits dest: list_entries_lines)
next
  assume "dirList_page e reqPath files = Page hs4 body4"
  then show "body4 = page_head4 (EscapeString reqPath) (EscapeString reqPath) @ parent_link4 reqPath
               @ concat (map (\<lambda>f. the (entry_line4 e reqPath f))
                           (filter (\<lambda>f. \<not> hidden f) (sort_Slice less_dir_name files)))
               @ ''</ul></body></html>''"
    by (auto simp: dirList_page_def Let_def split: option.splits dest: list_entries4_lines)
next
  assume "entry_line e reqPath f = Some line"
  then show "\<exists>fi. Info f = Some fi \<and> line = entry_html
                   (EscapeString (Join reqPath (Name f) @ (if EntryIsDir f then ''/'' else [])))
                   (EscapeString (Name f @ (if EntryIsDir f then ''/'' else [])))
                   (Size fi) (Format e ''2006-01-02 15:04:05'' (ModTime fi))
              \<and> markup line = markup (entry_html [] [] 0 (Format e ''2006-01-02 15:04:05'' (ModTime fi)))"
    by (cases "Info f") (auto simp: entry_line_def Let_def markup_entry_html)
next
  assume "entry_line4 e reqPath f = Some line4"
  then show "\<exists>fi. Info f = Some fi \<and> line4 = entry_html4
                   (HTMLEscapeString (Join reqPath (Name f) @ (if EntryIsDir f then ''/'' else [])))
                   (HTMLEscapeString (Name f)) (Size fi) (Format e RFC3339 (ModTime fi))
              \<and> markup line4 = markup (entry_html4 [] [] 0 (Format e RFC3339 (ModTime fi)))"
    by (cases "Info f") (auto simp: entry_line4_def Let_def markup_entry_html4)
qed

subsection \<open>The example directory\<close>

lemma ex_more_paths:
  "Clean ''/'' = ''/''"
  "Join ''/srv'' ''/'' = ''/srv''"
  "Join ''/srv'' (Clean ''/.secret'') = ''/srv/.secret''"
  "Rel ''/srv'' ''/srv/.secret'' = Inr ''.secret''"
  "Join ''/'' ''a<b.txt'' = ''/a<b.txt''"
  "Join ''/'' ''d'' = ''/d''"
  "Join ''/'' ''f.txt'' = ''/f.txt''"
  by code_simp+


lemma ex_itoa: "Itoa 4096 = ''4096''" "Itoa 7 = ''7''" "Itoa 2 = ''2''"
  by (simp_all add: Itoa_def digits.simps char_of_eq_iff)

lemma ex_readdir:
  "Stat example_env ''/srv'' = Some \<lparr>Size = 4096, ModTime = 1, IsDir = True\<rparr>"
  "ReadDir example_env ''/srv'' = Some example_files"
  "Format example_env layout t = ''2024-01-01 00:00:00''"
  by (simp_all add: example_env_def)







text \<open>The line of \<open>a<b.txt\<close> carries the name and the link escaped.\<close>

theorem listing_escaped_witness:
  "markup (EscapeString ''a<b.txt'') = []
   \<and> EscapeString ''a<b.txt'' = ''a&lt;b.txt''
   \<and> entry_line example_env ''/'' (example_files ! 1)
       = Some (entry_html ''/a&lt;b.txt'' ''a&lt;b.txt'' 7 ''2024-01-01 00:00:00'')"
  using listing_escaped [where s = "''a<b.txt''" and e = example_env and reqPath = "''/''"
      and f = "example_files ! 1"
      and line = "entry_html ''/a&lt;b.txt'' ''a&lt;b.txt'' 7 ''2024-01-01 00:00:00''"]
  by (simp add: example_files_def entry_line_def ex_more_paths ex_readdir escape_byte_def Let_def)

section \<open>Paths: splitting and cleaning\<close>

lemma split_path_not_Nil: "split_path s \<noteq> []"
  by (cases s) auto

lemma split_path_append: "split_path (a @ CHR ''/'' # b) = split_path a @ split_path b"
proof (induction a)
  case Nil
  then show ?case by simp
next
  case (Cons c cs)
  then show ?case
    using split_path_not_Nil [of cs] by (cases "split_path cs") auto
qed

lemma split_path_no_sep: "CHR ''/'' \<notin> set e \<Longrightarrow> split_path e = [e]"
  by (induction e) auto

lemma split_path_elems: "e \<in> set (split_path s) \<Longrightarrow> CHR ''/'' \<notin> set e"
proof (induction s arbitrary: e)
  case Nil
  then show ?case by simp
next
  case (Cons c cs)
  then show ?case
    using split_path_not_Nil [of cs]
    by (cases "split_path cs") (auto split: if_splits)
qed

lemma split_join_path:
  "xs \<noteq> [] \<Longrightarrow> \<forall>e\<in>set xs. CHR ''/'' \<notin> set e \<Longrightarrow> split_path (join_path xs) = xs"
proof (induction xs rule: join_path.induct)
  case 1
  then show ?case by simp
next
  case (2 e)
  then show ?case by (simp add: split_path_no_sep)
next
  case (3 e f es)
  then show ?case by (simp add: split_path_append split_path_no_sep)
qed

lemma join_path_append:
  "join_path (xs @ ys) =
     (if xs = [] then join_path ys else if ys = [] then join_path xs
      else join_path xs @ CHR ''/'' # join_path ys)"
proof (induction xs rule: join_path.induct)
  case 1
  then show ?case by simp
next
  case (2 e)
  then show ?case by (cases ys) auto
next
  case (3 e f es)
  then show ?case by auto
qed

lemma clean_elems_append:
  "clean_elems r out (xs @ ys) = clean_elems r (clean_elems r out xs) ys"
  by (induction xs arbitrary: out) auto

lemma clean_elems_names:
  "\<forall>e\<in>set es. name_elem e \<Longrightarrow> clean_elems r out es = out @ es"
  by (induction es arbitrary: out) (auto simp: name_elem_def)

lemma clean_elems_rooted_names:
  "\<forall>e\<in>set out. name_elem e \<Longrightarrow> \<forall>e\<in>set es. CHR ''/'' \<notin> set e \<Longrightarrow>
   \<forall>e\<in>set (clean_elems True out es). name_elem e"
proof (induction es arbitrary: out)
  case Nil
  then show ?case by simp
next
  case (Cons a es)
  have bl: "\<forall>e\<in>set (butlast out). name_elem e"
    using Cons.prems(1) by (auto dest: in_set_butlastD)
  have app: "\<forall>e\<in>set (out @ [a]). name_elem e" if "a \<noteq> []" "a \<noteq> ''.''" "a \<noteq> ''..''"
    using that Cons.prems by (auto simp: name_elem_def)
  show ?case
    using Cons.IH [of out] Cons.IH [OF bl] Cons.IH [OF app] Cons.prems
    by auto
qed

section \<open>Absolute paths stay within the root\<close>

lemma IsAbs_iff: "IsAbs p \<longleftrightarrow> (\<exists>rest. p = CHR ''/'' # rest)"
  by (cases p) (auto simp: IsAbs_def HasPrefix_def)

lemma Clean_abs:
  "IsAbs p \<Longrightarrow> Clean p = CHR ''/'' # join_path (clean_elems True [] (split_path p))"
  by (auto simp: IsAbs_iff Clean_def Let_def)

lemma abs_elems_names:
  "\<forall>e\<in>set (clean_elems True [] (split_path p)). name_elem e"
  using clean_elems_rooted_names [of "[]" "split_path p"] split_path_elems [of _ p] by auto

lemma split_abs_names:
  assumes "\<forall>e\<in>set xs. name_elem e"
  shows "clean_elems True out (split_path (join_path xs)) = clean_elems True out xs"
proof (cases "xs = []")
  case True
  then show ?thesis by simp
next
  case False
  with assms have "split_path (join_path xs) = xs"
    by (intro split_join_path) (auto simp: name_elem_def)
  then show ?thesis by simp
qed

lemma Clean_names:
  assumes "\<forall>e\<in>set xs. name_elem e"
  shows "Clean (CHR ''/'' # join_path xs) = CHR ''/'' # join_path xs"
  using assms by (simp add: Clean_def split_abs_names clean_elems_names)

lemma Join_abs:
  assumes "IsAbs b" "IsAbs u"
  shows "Join b (Clean u) =
     CHR ''/'' # join_path (clean_elems True [] (split_path b) @ clean_elems True [] (split_path u))"
proof -
  let ?bs = "clean_elems True [] (split_path b)"
  let ?cs = "clean_elems True [] (split_path u)"
  from assms obtain rest where b: "b = CHR ''/'' # rest" by (auto simp: IsAbs_iff)
  have cu: "Clean u = CHR ''/'' # join_path ?cs"
    using assms by (simp add: Clean_abs)
  have "IsAbs (b @ CHR ''/'' # Clean u)"
    using b by (simp add: IsAbs_iff)
  then have "Clean (b @ CHR ''/'' # Clean u) =
      CHR ''/'' # join_path (clean_elems True [] (split_path (b @ CHR ''/'' # Clean u)))"
    by (rule Clean_abs)
  also have "clean_elems True [] (split_path (b @ CHR ''/'' # Clean u)) =
      clean_elems True ?bs (split_path (CHR ''/'' # join_path ?cs))"
    by (simp only: split_path_append clean_elems_append cu)
  also have "\<dots> = ?bs @ ?cs"
    using abs_elems_names [of u] by (simp add: split_abs_names clean_elems_names)
  finally show ?thesis
    using b by (simp add: Join_def)
qed

lemma HasPrefix_append [simp]: "HasPrefix (a @ b) a"
  by (simp add: HasPrefix_def)

lemma HasPrefix_join_path:
  "xs \<noteq> [] \<Longrightarrow> ys \<noteq> [] \<Longrightarrow> HasPrefix (CHR ''/'' # join_path (xs @ ys)) ((CHR ''/'' # join_path xs) @ ''/'')"
  by (simp add: join_path_append HasPrefix_def)

lemma join_path_Nil_iff:
  "\<forall>e\<in>set xs. name_elem e \<Longrightarrow> join_path xs = [] \<longleftrightarrow> xs = []"
  by (induction xs rule: join_path.induct) (auto simp: name_elem_def)

lemma Join_within_root:
  assumes "IsAbs b" "IsAbs u"
  shows "within_root (Clean b) (Join (Clean b) (Clean u))"
    and "HasPrefix (Join (Clean b) (Clean u)) (Clean b)"
    and "Join (Clean b) (Clean u) = Join b (Clean u)"
proof -
  let ?bs = "clean_elems True [] (split_path b)"
  let ?cs = "clean_elems True [] (split_path u)"
  have cb: "Clean b = CHR ''/'' # join_path ?bs"
    using assms by (simp add: Clean_abs)
  have "IsAbs (Clean b)"
    by (simp add: cb IsAbs_iff)
  then have j: "Join (Clean b) (Clean u) =
      CHR ''/'' # join_path (clean_elems True [] (split_path (Clean b)) @ ?cs)"
    using assms(2) by (rule Join_abs)
  have "clean_elems True [] (split_path (Clean b)) = ?bs"
    using abs_elems_names [of b] by (simp add: cb split_abs_names clean_elems_names)
  with j have j': "Join (Clean b) (Clean u) = CHR ''/'' # join_path (?bs @ ?cs)"
    by simp
  then show "Join (Clean b) (Clean u) = Join b (Clean u)"
    using assms by (simp add: Join_abs)
  show "HasPrefix (Join (Clean b) (Clean u)) (Clean b)"
    by (simp only: j') (simp add: cb join_path_append HasPrefix_def)
  show "within_root (Clean b) (Join (Clean b) (Clean u))"
  proof (cases "?cs = []")
    case True
    then show ?thesis by (simp only: j' within_root_def) (simp add: cb)
  next
    case cs: False
    show ?thesis
    proof (cases "?bs = []")
      case True
      then show ?thesis by (simp only: j' within_root_def) (simp add: cb HasPrefix_def)
    next
      case False
      then have "join_path ?bs \<noteq> []"
        using abs_elems_names [of b] by (simp add: join_path_Nil_iff)
      with False cs show ?thesis
        by (simp only: j' within_root_def) (simp add: cb join_path_append HasPrefix_def)
    qed
  qed
qed


lemma skip_common_prefix: "skip_common xs (xs @ ys) = ([], ys)"
proof (induction xs)
  case Nil
  then show ?case by (cases ys) simp_all
next
  case (Cons x xs)
  then show ?case by simp
qed

lemma path_elems_abs:
  assumes "\<forall>e\<in>set xs. name_elem e"
  shows "path_elems (CHR ''/'' # join_path xs) = [] # xs"
proof (cases "xs = []")
  case True
  then show ?thesis by (simp add: path_elems_def)
next
  case False
  with assms have "split_path (join_path xs) = xs" "join_path xs \<noteq> []"
    by (auto intro!: split_join_path simp: name_elem_def join_path_Nil_iff)
  then show ?thesis by (simp add: path_elems_def)
qed

lemma Rel_Join_abs:
  assumes "IsAbs b" "IsAbs u"
  shows "Rel b (Join b (Clean u)) =
     Inr (if clean_elems True [] (split_path u) = [] then ''.''
          else join_path (clean_elems True [] (split_path u)))"
proof -
  let ?bs = "clean_elems True [] (split_path b)"
  let ?cs = "clean_elems True [] (split_path u)"
  have nb: "\<forall>e\<in>set ?bs. name_elem e" and nc: "\<forall>e\<in>set ?cs. name_elem e"
    by (rule abs_elems_names)+
  then have nbc: "\<forall>e\<in>set (?bs @ ?cs). name_elem e" by auto
  have cb: "Clean b = CHR ''/'' # join_path ?bs"
    using assms by (simp add: Clean_abs)
  have j: "Join b (Clean u) = CHR ''/'' # join_path (?bs @ ?cs)"
    using assms by (rule Join_abs)
  have cj: "Clean (Join b (Clean u)) = CHR ''/'' # join_path (?bs @ ?cs)"
    unfolding j using nbc by (rule Clean_names)
  show ?thesis
  proof (cases "?cs = []")
    case True
    then show ?thesis by (simp add: Rel_def cb cj)
  next
    case False
    then have "join_path ?cs \<noteq> []"
      using nc by (simp add: join_path_Nil_iff)
    with False have ne: "join_path (?bs @ ?cs) \<noteq> join_path ?bs"
      by (simp add: join_path_append)
    have pe: "path_elems (CHR ''/'' # join_path ?bs) = [] # ?bs"
      "path_elems (CHR ''/'' # join_path (?bs @ ?cs)) = [] # ?bs @ ?cs"
      using nb nbc by (simp_all only: path_elems_abs)
    show ?thesis
      using False ne by (simp add: Rel_def cb cj pe skip_common_prefix Let_def)
  qed
qed

lemma within_root_join:
  assumes "\<forall>e\<in>set bs. name_elem e" "\<forall>e\<in>set cs. name_elem e"
  shows "within_root (CHR ''/'' # join_path bs) (CHR ''/'' # join_path (bs @ cs))"
proof (cases "cs = [] \<or> bs = []")
  case True
  then show ?thesis by (auto simp: within_root_def HasPrefix_def)
next
  case False
  then have "join_path bs \<noteq> []"
    using assms by (simp add: join_path_Nil_iff)
  with False show ?thesis
    by (simp add: within_root_def join_path_append HasPrefix_def)
qed

lemma skip_common_split:
  "skip_common xs ys = (xs', ys') \<Longrightarrow> \<exists>cm. xs = cm @ xs' \<and> ys = cm @ ys'"
proof (induction xs ys rule: skip_common.induct)
  case (1 b bs t ts)
  show ?case
  proof (cases "t = b")
    case True
    with 1 obtain cm where "bs = cm @ xs'" "ts = cm @ ys'" by auto
    with True show ?thesis by (intro exI [of _ "b # cm"]) simp
  next
    case False
    with 1 show ?thesis by (intro exI [of _ "[]"]) auto
  qed
qed auto

lemma HasPrefix_climb:
  "bs \<noteq> [] \<Longrightarrow> HasPrefix (join_path (map (\<lambda>_. ''..'') bs @ ts)) ''..''"
proof -
  assume "bs \<noteq> []"
  then obtain b bs' where "bs = b # bs'" by (cases bs) auto
  then show ?thesis
    by (cases "map (\<lambda>_. ''..'') bs' @ ts") (auto simp: HasPrefix_def)
qed

lemma baseDirectory_abs:
  assumes "IsAbs wd"
  shows "\<exists>b. IsAbs b \<and> baseDirectory_of wd dir = Clean b"
proof (cases "IsAbs dir")
  case True
  then show ?thesis by (auto simp: baseDirectory_of_def Abs_def)
next
  case False
  from assms have "IsAbs (wd @ CHR ''/'' # dir)" "wd \<noteq> []"
    by (auto simp: IsAbs_iff)
  with False show ?thesis
    by (auto simp: baseDirectory_of_def Abs_def Join_def)
qed

lemma handleBrowse_ops:
  "HasPrefix (Join base (Clean url)) base \<Longrightarrow> snd (snd (handleBrowse base e now c url)) \<noteq> []"
  by (auto simp: handleBrowse_def browse_stat_def Let_def split: option.splits)

lemma fileHandler_ops:
  "Rel base (Join base (Clean url)) = Inr rel \<Longrightarrow> \<not> HasPrefix rel ''..'' \<Longrightarrow>
   snd (snd (fileHandler base ttl e now c url)) \<noteq> []"
  by (auto simp: fileHandler_def getFromCache_def serve_info_def Let_def split: option.splits)

text \<open>
  Every request path that begins with \<open>/\<close> is resolved to a path within the root. In
  server3, whose root is the absolute path of the \<open>-dir\<close> flag, the prefix check then
  passes and the request goes on to the file system. In server4, with an absolute root,
  the check with \<open>filepath.Rel\<close> passes whenever the first element of the cleaned request
  path does not begin with two dots.
\<close>

theorem rooted_requests_stay_in_root:
  "(IsAbs wd \<and> IsAbs url \<longrightarrow>
      within_root (baseDirectory_of wd dir) (Join (baseDirectory_of wd dir) (Clean url))
      \<and> HasPrefix (Join (baseDirectory_of wd dir) (Clean url)) (baseDirectory_of wd dir)
      \<and> snd (snd (handleBrowse (baseDirectory_of wd dir) e now c url)) \<noteq> [])
   \<and> (IsAbs baseDir \<and> IsAbs url \<longrightarrow>
      within_root (Clean baseDir) (Join baseDir (Clean url))
      \<and> (\<not> HasPrefix (tl (Clean url)) ''..'' \<longrightarrow>
            snd (snd (fileHandler baseDir ttl e now c4 url)) \<noteq> []))"
proof (intro conjI impI)
  assume a: "IsAbs wd \<and> IsAbs url"
  then obtain b where b: "IsAbs b" "baseDirectory_of wd dir = Clean b"
    using baseDirectory_abs [of wd dir] by auto
  from a b show "within_root (baseDirectory_of wd dir) (Join (baseDirectory_of wd dir) (Clean url))"
    by (simp add: Join_within_root(1))
  from a b show pre: "HasPrefix (Join (baseDirectory_of wd dir) (Clean url)) (baseDirectory_of wd dir)"
    by (simp add: Join_within_root(2))
  then show "snd (snd (handleBrowse (baseDirectory_of wd dir) e now c url)) \<noteq> []"
    by (rule handleBrowse_ops)
next
  assume a: "IsAbs baseDir \<and> IsAbs url"
  then show "within_root (Clean baseDir) (Join baseDir (Clean url))"
    using Join_within_root(1) [of baseDir url] Join_within_root(3) [of baseDir url] by simp
  assume n: "\<not> HasPrefix (tl (Clean url)) ''..''"
  let ?cs = "clean_elems True [] (split_path url)"
  have "tl (Clean url) = join_path ?cs"
    using a by (simp add: Clean_abs)
  with n have "\<not> HasPrefix (if ?cs = [] then ''.'' else join_path ?cs) ''..''"
    by (simp add: HasPrefix_def)
  with a show "snd (snd (fileHandler baseDir ttl e now c4 url)) \<noteq> []"
    by (intro fileHandler_ops [OF Rel_Join_abs]) auto
qed

lemma ex_traversal:
  "Join ''/srv'' (Clean ''/../../etc/passwd'') = ''/srv/etc/passwd''"
  "Rel ''/srv'' ''/srv/etc/passwd'' = Inr ''etc/passwd''"
  "baseDirectory_of ''/srv'' ''.'' = ''/srv''"
  "Clean ''/srv'' = ''/srv''"
  "Join ''/srv'' (Clean ''/..foo'') = ''/srv/..foo''"
  "Rel ''/srv'' ''/srv/..foo'' = Inr ''..foo''"
  "Join ''/srv'' (Clean ''../srv-evil/x'') = ''/srv-evil/x''"
  "Rel ''/srv'' ''/srv-evil/x'' = Inr ''../srv-evil/x''"
  by code_simp+

lemma ex_stat_missing:
  "Stat example_env ''/srv/etc/passwd'' = None"
  "Stat example_env ''/srv-evil/x'' = Some \<lparr>Size = 6, ModTime = 2, IsDir = False\<rparr>"
  by (simp_all add: example_env_def)

theorem rooted_requests_stay_in_root_witness:
  "IsAbs ''/srv'' \<and> IsAbs ''/../../etc/passwd''
   \<and> Join (baseDirectory_of ''/srv'' ''.'') (Clean ''/../../etc/passwd'') = ''/srv/etc/passwd''
   \<and> within_root ''/srv'' ''/srv/etc/passwd''
   \<and> snd (snd (handleBrowse ''/srv'' example_env 7 Map.empty ''/../../etc/passwd''))
       = [OpStat ''/srv/etc/passwd'']
   \<and> snd (snd (fileHandler ''/srv'' 10000000000 example_env 7 Map.empty ''/../../etc/passwd''))
       = [OpStat ''/srv/etc/passwd'']"
  using rooted_requests_stay_in_root [where wd = "''/srv''" and url = "''/../../etc/passwd''"
      and dir = "''.''" and baseDir = "''/srv''" and e = example_env and now = 7
      and c = Map.empty and ?c4.0 = Map.empty and ttl = 10000000000]
  by (simp add: ex_traversal ex_stat_missing IsAbs_def HasPrefix_def handleBrowse_def
      browse_stat_def fileHandler_def getFromCache_def Let_def)

text \<open>
  Claim C10. The claim says that the rejection branch is never taken for a request path
  beginning with \<open>/\<close>. server4 takes it for \<open>/..foo\<close>, whose resolved path
  \<open>/srv/..foo\<close> lies within the root \<open>/srv\<close>: the result of \<open>filepath.Rel\<close> is
  \<open>..foo\<close>, which begins with two dots.
\<close>

theorem fileHandler_rejects_dotdot_name:
  "IsAbs ''/srv'' \<and> IsAbs ''/..foo''
   \<and> Join ''/srv'' (Clean ''/..foo'') = ''/srv/..foo''
   \<and> within_root ''/srv'' ''/srv/..foo''
   \<and> fileHandler ''/srv'' 10000000000 example_env 7 Map.empty ''/..foo''
       = (Error StatusNotFound ''Not found'', Map.empty, [])"
  by (simp add: ex_traversal IsAbs_def HasPrefix_def fileHandler_def within_root_def Let_def)

section \<open>Paths outside the root\<close>

text \<open>
  server4, with an absolute root, answers every request whose resolved path does not lie
  within the root with 404 and without touching the file system.
\<close>

lemma fileHandler_rejects_outside_root:
  assumes "IsAbs baseDir"
    and out: "\<not> within_root (Clean baseDir) (Join baseDir (Clean url))"
  shows "fileHandler baseDir ttl e now c4 url = (Error StatusNotFound ''Not found'', c4, [])"
proof -
  let ?q = "baseDir @ CHR ''/'' # Clean url"
  let ?bs = "clean_elems True [] (split_path baseDir)"
  let ?ps = "clean_elems True [] (split_path ?q)"
  have nb: "\<forall>e\<in>set ?bs. name_elem e" and np: "\<forall>e\<in>set ?ps. name_elem e"
    by (rule abs_elems_names)+
  from assms(1) have q: "IsAbs ?q" "baseDir \<noteq> []"
    by (auto simp: IsAbs_iff)
  then have p: "Join baseDir (Clean url) = CHR ''/'' # join_path ?ps"
    by (simp add: Join_def Clean_abs)
  have cb: "Clean baseDir = CHR ''/'' # join_path ?bs"
    using assms(1) by (simp add: Clean_abs)
  have cp: "Clean (CHR ''/'' # join_path ?ps) = CHR ''/'' # join_path ?ps"
    using np by (rule Clean_names)
  from out have ne: "join_path ?ps \<noteq> join_path ?bs"
    by (auto simp: p cb within_root_def)
  obtain bs' ps' where sc: "skip_common ?bs ?ps = (bs', ps')"
    by (cases "skip_common ?bs ?ps")
  then obtain cm where cm: "?bs = cm @ bs'" "?ps = cm @ ps'"
    using skip_common_split by blast
  have "bs' \<noteq> []"
  proof
    assume "bs' = []"
    with cm have "?ps = ?bs @ ps'" by simp
    moreover from this np have "\<forall>e\<in>set ps'. name_elem e"
      by (metis Un_iff set_append)
    ultimately have "within_root (CHR ''/'' # join_path ?bs) (CHR ''/'' # join_path ?ps)"
      using within_root_join [OF nb, of ps'] by simp
    with out show False by (simp add: p cb)
  qed
  then have rel: "\<And>rel. Rel baseDir (Join baseDir (Clean url)) = Inr rel \<Longrightarrow> HasPrefix rel ''..''"
    using ne sc nb np
    by (auto simp: Rel_def p cb cp path_elems_abs Let_def HasPrefix_climb
        HasPrefix_climb [of _ "[]", simplified] split: if_splits)
  show ?thesis
  proof (cases "Rel baseDir (Join baseDir (Clean url))")
    case (Inl err)
    then show ?thesis by (simp add: fileHandler_def Let_def)
  next
    case (Inr r)
    with rel [OF Inr] show ?thesis by (simp add: fileHandler_def Let_def)
  qed
qed


end
